theory Spec2Isabelle
  imports Main
begin

section \<open>Strings and errors\<close>

text \<open>
  Decimal rendering of numbers inside template strings, as JavaScript's
  \<^verbatim>\<open>`${n}`\<close> does for integers.
\<close>

function show_nat :: "nat \<Rightarrow> string" where
  "show_nat n =
     (if n < 10 then [''0123456789'' ! n]
      else show_nat (n div 10) @ [''0123456789'' ! (n mod 10)])"
  by pat_completeness auto
termination
  by (relation "measure id") auto

declare show_nat.simps [simp del]

definition show_int :: "int \<Rightarrow> string" where
  "show_int i = (if i < 0 then CHR ''-'' # show_nat (nat (- i)) else show_nat (nat i))"

text \<open>
  Every \<^verbatim>\<open>new Error(...)\<close> of src/server.js, one constructor per throw site, named after
  the error taxonomy of the specification. \<open>LastErrorUndefined\<close> is the TypeError that
  reading \<^verbatim>\<open>lastError.message\<close> raises when the retry loop never ran.
\<close>

datatype js_error =
    ConfigMissing string string
  | ConnectionTimeout string
  | ConnectionInactive string
  | ForwardExhausted int string
  | LastErrorUndefined

fun message :: "js_error \<Rightarrow> string" where
  "message (ConfigMissing what p) = what @ '' not found: '' @ p"
| "message (ConnectionTimeout n) = ''VPN connection '' @ n @ '' timeout''"
| "message (ConnectionInactive n) = ''VPN connection '' @ n @ '' is not active''"
| "message (ForwardExhausted m e) =
     ''Request failed after '' @ show_int m @ '' attempts: '' @ e"
| "message LastErrorUndefined =
     ''Cannot read properties of undefined (reading 'message')''"

section \<open>VPNManager\<close>

text \<open>
  The four strings that \<^verbatim>\<open>connectionStatus\<close> ever holds.
\<close>

datatype conn_status = Connected | Connecting | Disconnected | Error

text \<open>
  An entry of \<^verbatim>\<open>this.connections\<close>. The process handle is the index of the process in
  the list of processes spawned so far.
\<close>

record connection =
  process :: nat
  protocol :: string
  startTime :: int

datatype level = Debug | Info | Warn | Err

datatype timer =
    ReconnectTimer string string int
  | KillTimer string nat int

text \<open>
  The class \<^verbatim>\<open>VPNManager\<close> is at lines 271 to 501 of src/server.js.
  The fields of the class, followed by the effects on the outside world that the methods
  have: the processes spawned with \<^verbatim>\<open>spawn('openvpn', ...)\<close> (connection name and
  configuration path), the signals sent with \<^verbatim>\<open>process.kill\<close>, the callbacks scheduled
  with \<^verbatim>\<open>setTimeout\<close>, and the lines handed to the logger, each in order of occurrence.
\<close>

record vpn_state =
  connections :: "string \<rightharpoonup> connection"
  connectionStatus :: "string \<rightharpoonup> conn_status"
  reconnectAttempts :: "string \<rightharpoonup> int"
  maxReconnectAttempts :: int
  reconnectDelay :: int
  spawned :: "(string \<times> string) list"
  signals :: "(nat \<times> string) list"
  scheduled :: "timer list"
  logs :: "(level \<times> string) list"

definition constructor :: vpn_state where
  "constructor =
     \<lparr> connections = Map.empty, connectionStatus = Map.empty,
       reconnectAttempts = Map.empty, maxReconnectAttempts = 3, reconnectDelay = 5000,
       spawned = [], signals = [], scheduled = [], logs = [] \<rparr>"

definition logger :: "level \<Rightarrow> string \<Rightarrow> vpn_state \<Rightarrow> vpn_state" where
  "logger l m st = st\<lparr>logs := logs st @ [(l, m)]\<rparr>"

definition isConnected :: "vpn_state \<Rightarrow> string \<Rightarrow> bool" where
  "isConnected st connectionId \<longleftrightarrow> connectionStatus st connectionId = Some Connected"

definition getStatus :: "vpn_state \<Rightarrow> string \<Rightarrow> conn_status" where
  "getStatus st connectionId =
     (case connectionStatus st connectionId of None \<Rightarrow> Disconnected | Some s \<Rightarrow> s)"

definition set_status :: "string \<Rightarrow> conn_status \<Rightarrow> vpn_state \<Rightarrow> vpn_state" where
  "set_status connectionId s st =
     st\<lparr>connectionStatus := (connectionStatus st)(connectionId \<mapsto> s)\<rparr>"

subsection \<open>stopVPN\<close>

text \<open>
  Lines 363 to 388. The name is untracked when \<^verbatim>\<open>this.connections\<close> has no entry for it.
\<close>

definition stopVPN :: "string \<Rightarrow> vpn_state \<Rightarrow> vpn_state" where
  "stopVPN connectionId st =
     (case connections st connectionId of
        None \<Rightarrow> logger Warn (''No VPN connection found for '' @ connectionId) st
      | Some c \<Rightarrow>
          (let st1 = logger Info (''Stopping VPN connection '' @ connectionId) st;
               st2 = st1\<lparr>signals := signals st1 @ [(process c, ''SIGTERM'')]\<rparr>;
               st3 = st2\<lparr>scheduled := scheduled st2 @ [KillTimer connectionId (process c) 5000]\<rparr>;
               st4 = st3\<lparr>connections := (connections st3)(connectionId := None)\<rparr>;
               st5 = set_status connectionId Disconnected st4
           in st5\<lparr>reconnectAttempts := (reconnectAttempts st5)(connectionId := None)\<rparr>))"

text \<open>
  The callback that \<open>stopVPN\<close> schedules: a forced kill if the name is tracked again
  (or still) when the grace period ends.
\<close>

definition kill_timer_fires :: "string \<Rightarrow> nat \<Rightarrow> vpn_state \<Rightarrow> vpn_state" where
  "kill_timer_fires connectionId pid st =
     (if connections st connectionId \<noteq> None
      then st\<lparr>signals := signals st @ [(pid, ''SIGKILL'')]\<rparr> else st)"

subsection \<open>startVPN\<close>

definition configPath :: "string \<Rightarrow> string" where
  "configPath proto =
     ''config/'' @ (if proto = ''tcp'' then ''vpn-tcp.ovpn'' else ''vpn-udp.ovpn'')"

definition authPath :: string where
  "authPath = ''config/auth.txt''"

datatype started = AlreadyActive | Awaiting

text \<open>
  Lines 286 to 357. \<open>startVPN\<close> up to \<^verbatim>\<open>this.connections.set\<close>: the guard on the state, the two
  \<^verbatim>\<open>fs.existsSync\<close> checks (they throw outside the \<^verbatim>\<open>try\<close>, so the state is not
  touched), the spawn and the registration of the handle. \<open>existsSync\<close> is the file
  system, \<open>now\<close> is \<^verbatim>\<open>Date.now()\<close>.
\<close>

definition startVPN_spawn ::
  "(string \<Rightarrow> bool) \<Rightarrow> int \<Rightarrow> string \<Rightarrow> string \<Rightarrow> vpn_state \<Rightarrow> (js_error + started) \<times> vpn_state" where
  "startVPN_spawn existsSync now connectionId proto st =
     (if isConnected st connectionId
      then (Inr AlreadyActive,
            logger Info (''VPN connection '' @ connectionId @ '' is already active'') st)
      else if \<not> existsSync (configPath proto)
      then (Inl (ConfigMissing ''VPN config file'' (configPath proto)), st)
      else if \<not> existsSync authPath
      then (Inl (ConfigMissing ''Auth file'' authPath), st)
      else
        (let st1 = logger Info (''Starting VPN connection '' @ connectionId
                                 @ '' with protocol '' @ proto) st;
             pid = length (spawned st1);
             st2 = st1\<lparr>spawned := spawned st1 @ [(connectionId, configPath proto)]\<rparr>
         in (Inr Awaiting,
             st2\<lparr>connections := (connections st2)(connectionId \<mapsto>
                    \<lparr>process = pid, protocol = proto, startTime = now\<rparr>)\<rparr>)))"

subsection \<open>waitForConnection\<close>

text \<open>
  Lines 430 to 462. What the probe loop meets: whether the \<open>k\<close>-th \<^verbatim>\<open>ip route | grep tun\<close> prints a tunnel
  interface, how many milliseconds that \<^verbatim>\<open>exec\<close> takes to call back, how late the timer
  of the following poll fires, and what other callbacks do to the manager while the
  \<open>k\<close>-th \<^verbatim>\<open>exec\<close> runs and the loop waits for the timer after it.
\<close>

record probe_env =
  sees_tun :: "nat \<Rightarrow> bool"
  exec_ms :: "nat \<Rightarrow> nat"
  late_ms :: "nat \<Rightarrow> nat"
  meanwhile :: "nat \<Rightarrow> vpn_state \<Rightarrow> vpn_state"

definition checkInterval :: int where
  "checkInterval = 1000"

text \<open>
  \<open>checkConnection\<close>, the \<open>k\<close>-th poll running at time \<open>now\<close>. The result is what the
  promise settles with, when, and the manager at that moment.
\<close>

function checkConnection ::
  "probe_env \<Rightarrow> string \<Rightarrow> int \<Rightarrow> int \<Rightarrow> nat \<Rightarrow> int \<Rightarrow> vpn_state
     \<Rightarrow> (js_error + unit) \<times> int \<times> vpn_state" where
  "checkConnection env connectionId timeout start k now st =
     (if now - start > timeout
      then (Inl (ConnectionTimeout connectionId), now, set_status connectionId Error st)
      else if sees_tun env k
      then (Inr (), now + int (exec_ms env k),
            set_status connectionId Connected (meanwhile env k st))
      else checkConnection env connectionId timeout start (Suc k)
             (now + int (exec_ms env k) + checkInterval + int (late_ms env k))
             (meanwhile env k st))"
  by pat_completeness auto
termination
  by (relation "measure (\<lambda>(env, c, timeout, start, k, now, st). nat (start + timeout + 1 - now))")
     (auto simp: checkInterval_def)

declare checkConnection.simps [simp del]

definition waitForConnection ::
  "probe_env \<Rightarrow> string \<Rightarrow> int \<Rightarrow> int \<Rightarrow> vpn_state \<Rightarrow> (js_error + unit) \<times> int \<times> vpn_state" where
  "waitForConnection env connectionId timeout now st =
     checkConnection env connectionId timeout now 0 now (set_status connectionId Connecting st)"

text \<open>
  The whole of \<open>startVPN\<close>, called at time \<open>now\<close>: the result, the time at which the
  call returns or throws, and the manager then. \<open>waitForConnection\<close> is called with its
  default timeout.
\<close>

definition startVPN ::
  "probe_env \<Rightarrow> (string \<Rightarrow> bool) \<Rightarrow> int \<Rightarrow> string \<Rightarrow> string \<Rightarrow> vpn_state
     \<Rightarrow> (js_error + bool) \<times> int \<times> vpn_state" where
  "startVPN env existsSync now connectionId proto st =
     (case startVPN_spawn existsSync now connectionId proto st of
        (Inl e, st') \<Rightarrow> (Inl e, now, st')
      | (Inr AlreadyActive, st') \<Rightarrow> (Inr True, now, st')
      | (Inr Awaiting, st') \<Rightarrow>
          (case waitForConnection env connectionId 30000 now st' of
             (Inr _, t, st'') \<Rightarrow>
               (Inr True, t,
                logger Info (''VPN connection '' @ connectionId @ '' established successfully'') st'')
           | (Inl e, t, st'') \<Rightarrow>
               (Inl e, t,
                set_status connectionId Error
                  (logger Err (''Failed to start VPN connection '' @ connectionId @ '': '' @ message e)
                     st''))))"

text \<open>
  \<open>startVPN\<close> up to its first suspension: the call has thrown, or returned true, or has
  set the state to connecting and waits for the first probe.
\<close>

definition startVPN_begin ::
  "(string \<Rightarrow> bool) \<Rightarrow> int \<Rightarrow> string \<Rightarrow> string \<Rightarrow> vpn_state \<Rightarrow> (js_error + started) \<times> vpn_state" where
  "startVPN_begin existsSync now connectionId proto st =
     (case startVPN_spawn existsSync now connectionId proto st of
        (Inr Awaiting, st') \<Rightarrow> (Inr Awaiting, set_status connectionId Connecting st')
      | r \<Rightarrow> r)"

text \<open>
  Two calls of \<open>startVPN\<close> for one name in immediate succession: the second is made while
  the first is suspended (or after it threw or returned at once).
\<close>

definition start_twice ::
  "(string \<Rightarrow> bool) \<Rightarrow> int \<Rightarrow> string \<Rightarrow> string \<Rightarrow> vpn_state
     \<Rightarrow> (js_error + started) \<times> (js_error + started) \<times> vpn_state" where
  "start_twice existsSync now connectionId proto st =
     (let (r1, st1) = startVPN_begin existsSync now connectionId proto st;
          (r2, st2) = startVPN_begin existsSync now connectionId proto st1
      in (r1, r2, st2))"

subsection \<open>Process events and the reconnect policy\<close>

definition show_code :: "int option \<Rightarrow> string" where
  "show_code c = (case c of None \<Rightarrow> ''null'' | Some i \<Rightarrow> show_int i)"

definition show_signal :: "string option \<Rightarrow> string" where
  "show_signal s = (case s of None \<Rightarrow> ''null'' | Some x \<Rightarrow> x)"

definition on_error :: "string \<Rightarrow> string \<Rightarrow> vpn_state \<Rightarrow> vpn_state" where
  "on_error connectionId err st =
     set_status connectionId Error
       (logger Err (''VPN '' @ connectionId @ '' process error: '' @ err) st)"

text \<open>
  Lines 469 to 479: the read of the counter with \<^verbatim>\<open>|| 0\<close>, the test against the maximum,
  then the increment and the \<^verbatim>\<open>setTimeout\<close>.
\<close>

definition attemptReconnect :: "string \<Rightarrow> string \<Rightarrow> vpn_state \<Rightarrow> vpn_state" where
  "attemptReconnect connectionId proto st =
     (let attempts = (case reconnectAttempts st connectionId of None \<Rightarrow> 0 | Some a \<Rightarrow> a)
      in if attempts \<ge> maxReconnectAttempts st
         then logger Err (''Max reconnection attempts reached for VPN '' @ connectionId) st
         else
           (let st1 = st\<lparr>reconnectAttempts := (reconnectAttempts st)(connectionId \<mapsto> attempts + 1)\<rparr>;
                st2 = logger Info (''Attempting to reconnect VPN '' @ connectionId
                                    @ '' (attempt '' @ show_int (attempts + 1) @ '')'') st1
            in st2\<lparr>scheduled := scheduled st2 @ [ReconnectTimer connectionId proto (reconnectDelay st2)]\<rparr>))"

text \<open>
  Lines 329 to 338. The \<^verbatim>\<open>'exit'\<close> handler that \<open>startVPN\<close> registers on the process it spawns; \<open>code\<close>
  and \<open>signal\<close> are null (\<open>None\<close>) or a value.
\<close>

definition on_exit :: "string \<Rightarrow> string \<Rightarrow> int option \<Rightarrow> string option \<Rightarrow> vpn_state \<Rightarrow> vpn_state" where
  "on_exit connectionId proto code signal st =
     (let st1 = logger Info (''VPN '' @ connectionId @ '' process exited with code ''
                              @ show_code code @ '', signal '' @ show_signal signal) st;
          st2 = set_status connectionId Disconnected st1;
          st3 = st2\<lparr>connections := (connections st2)(connectionId := None)\<rparr>
      in if code \<noteq> Some 0 \<and> (signal = None \<or> signal = Some [])
         then attemptReconnect connectionId proto st3 else st3)"

text \<open>
  Lines 480 to 487. The callback that \<open>attemptReconnect\<close> schedules, run to its end: \<open>startVPN\<close> and, if
  it returns, the reset of the counter.
\<close>

definition reconnect_timer_fires ::
  "probe_env \<Rightarrow> (string \<Rightarrow> bool) \<Rightarrow> int \<Rightarrow> string \<Rightarrow> string \<Rightarrow> int \<Rightarrow> vpn_state \<Rightarrow> int \<times> vpn_state" where
  "reconnect_timer_fires env existsSync now connectionId proto attempt st =
     (case startVPN env existsSync now connectionId proto st of
        (Inr _, t, st') \<Rightarrow>
          (t, st'\<lparr>reconnectAttempts := (reconnectAttempts st')(connectionId := None)\<rparr>)
      | (Inl e, t, st') \<Rightarrow>
          (t, logger Err (''Reconnection attempt '' @ show_int attempt @ '' failed for VPN ''
                          @ connectionId @ '': '' @ message e) st'))"

text \<open>
  The same callback up to its first suspension: its \<open>startVPN\<close> has thrown (caught and
  logged), or returned at once (the counter is reset), or is waiting for the probe.
\<close>

definition reconnect_timer_begins ::
  "(string \<Rightarrow> bool) \<Rightarrow> int \<Rightarrow> string \<Rightarrow> string \<Rightarrow> int \<Rightarrow> vpn_state \<Rightarrow> vpn_state" where
  "reconnect_timer_begins existsSync now connectionId proto attempt st =
     (case startVPN_begin existsSync now connectionId proto st of
        (Inl e, st') \<Rightarrow>
          logger Err (''Reconnection attempt '' @ show_int attempt @ '' failed for VPN ''
                      @ connectionId @ '': '' @ message e) st'
      | (Inr AlreadyActive, st') \<Rightarrow>
          st'\<lparr>reconnectAttempts := (reconnectAttempts st')(connectionId := None)\<rparr>
      | (Inr Awaiting, st') \<Rightarrow> st')"

text \<open>
  How a start that waits for the probe ends when a poll finds the deadline passed: the
  timeout branch of \<open>checkConnection\<close> (lines 438 to 441), then the \<^verbatim>\<open>catch\<close> block of
  \<open>startVPN\<close> (lines 352 to 356).
\<close>

definition startVPN_times_out :: "string \<Rightarrow> vpn_state \<Rightarrow> vpn_state" where
  "startVPN_times_out connectionId st =
     set_status connectionId Error
       (logger Err (''Failed to start VPN connection '' @ connectionId @ '': ''
                    @ message (ConnectionTimeout connectionId))
          (set_status connectionId Error st))"

text \<open>
  How the reconnect callback ends after its first suspension: its start times out and
  the callback logs the failure, or the probe sees the tunnel (lines 448 to 450), the
  start returns and the callback resets the counter.
\<close>

definition reconnect_timer_times_out :: "string \<Rightarrow> int \<Rightarrow> vpn_state \<Rightarrow> vpn_state" where
  "reconnect_timer_times_out connectionId attempt st =
     logger Err (''Reconnection attempt '' @ show_int attempt @ '' failed for VPN ''
                 @ connectionId @ '': '' @ message (ConnectionTimeout connectionId))
       (startVPN_times_out connectionId st)"

definition reconnect_timer_succeeds :: "string \<Rightarrow> vpn_state \<Rightarrow> vpn_state" where
  "reconnect_timer_succeeds connectionId st =
     (let st1 = logger Info (''VPN connection '' @ connectionId @ '' established successfully'')
                  (set_status connectionId Connected st)
      in st1\<lparr>reconnectAttempts := (reconnectAttempts st1)(connectionId := None)\<rparr>)"

section \<open>ProxyHandler\<close>

text \<open>
  \<^verbatim>\<open>process.env\<close>, as far as the server reads it. The two numeric variables are given
  as what \<^verbatim>\<open>parseInt\<close> makes of them, \<open>None\<close> for NaN.
\<close>

record process_env =
  NODE_ENV :: "string option"
  REQUEST_TIMEOUT :: "int option"
  MAX_RETRIES :: "int option"

text \<open>
  \<^verbatim>\<open>x || d\<close> for a number \<open>x\<close>: NaN and 0 are falsy.
\<close>

definition or_default :: "int option \<Rightarrow> int \<Rightarrow> int" where
  "or_default x d = (case x of None \<Rightarrow> d | Some i \<Rightarrow> if i = 0 then d else i)"

text \<open>
  Lines 507 to 511, the constructor.
\<close>

record proxy_handler =
  timeout :: int
  maxRetries :: int

definition ProxyHandler :: "process_env \<Rightarrow> proxy_handler" where
  "ProxyHandler env =
     \<lparr> timeout = or_default (REQUEST_TIMEOUT env) 30000,
       maxRetries = or_default (MAX_RETRIES env) 3 \<rparr>"

record request_config =
  http_method :: string
  url :: string
  headers :: "string \<rightharpoonup> string"
  params :: "string \<rightharpoonup> string"
  data :: "string \<rightharpoonup> string"

record response =
  status :: int
  statusText :: string
  response_headers :: "(string \<times> string) list"
  response_data :: string

text \<open>
  What a call of \<open>handleRequest\<close> meets: the outcome of the \<open>attempt\<close>-th call of
  \<^verbatim>\<open>axios\<close> with the handler's timeout (a response, whatever its status, or the message
  of the error thrown), and the manager as it is when the failure of that attempt is
  handled.
\<close>

record transport =
  axios :: "int \<Rightarrow> int \<Rightarrow> request_config \<Rightarrow> string + response"
  vpn_after :: "int \<Rightarrow> vpn_state"

text \<open>
  What \<open>handleRequest\<close> has done when it returns or throws: its result, the requests
  sent with \<^verbatim>\<open>axios\<close>, the delays waited between them in milliseconds, and the manager
  as last seen. The lines that the handler and its middleware write to the logger are left
  out.
\<close>

record outcome =
  result :: "js_error + response"
  calls :: "request_config list"
  waits :: "int list"
  vpn :: vpn_state

text \<open>
  Line 565, the \<^verbatim>\<open>throw\<close> after the loop.
\<close>

definition after_loop :: "proxy_handler \<Rightarrow> string option \<Rightarrow> vpn_state \<Rightarrow> outcome" where
  "after_loop h lastError st =
     \<lparr> result = (case lastError of
                   None \<Rightarrow> Inl LastErrorUndefined
                 | Some m \<Rightarrow> Inl (ForwardExhausted (maxRetries h) m)),
       calls = [], waits = [], vpn = st \<rparr>"

definition sent :: "request_config \<Rightarrow> int list \<Rightarrow> outcome \<Rightarrow> outcome" where
  "sent config w r = r\<lparr>calls := config # calls r, waits := w @ waits r\<rparr>"

text \<open>
  Lines 533 to 563: the \<^verbatim>\<open>for\<close> loop of \<open>handleRequest\<close> from \<open>attempt\<close> on.
  \<open>lastError\<close> is the message of the last error caught, \<open>st\<close> the manager as last seen.
\<close>

function retry_loop ::
  "proxy_handler \<Rightarrow> transport \<Rightarrow> string \<Rightarrow> request_config \<Rightarrow> vpn_state \<Rightarrow> int \<Rightarrow> string option
     \<Rightarrow> outcome" where
  "retry_loop h tr connectionId config st attempt lastError =
     (if attempt \<le> maxRetries h then
        (case axios tr attempt (timeout h) config of
           Inr response \<Rightarrow>
             sent config [] \<lparr> result = Inr response, calls = [], waits = [], vpn = st \<rparr>
         | Inl error_message \<Rightarrow>
             (if \<not> isConnected (vpn_after tr attempt) connectionId
              then sent config [] (after_loop h (Some error_message) (vpn_after tr attempt))
              else sent config (if attempt < maxRetries h then [1000 * attempt] else [])
                     (retry_loop h tr connectionId config (vpn_after tr attempt) (attempt + 1)
                        (Some error_message))))
      else after_loop h lastError st)"
  by pat_completeness auto
termination
  by (relation "measure (\<lambda>(h, tr, c, config, st, attempt, lastError). nat (maxRetries h + 1 - attempt))")
     auto

declare retry_loop.simps [simp del]

text \<open>
  Lines 519 to 566. \<open>st\<close> is the manager when \<open>handleRequest\<close> is called.
\<close>

definition handleRequest ::
  "proxy_handler \<Rightarrow> transport \<Rightarrow> vpn_state \<Rightarrow> string \<Rightarrow> request_config \<Rightarrow> outcome" where
  "handleRequest h tr st connectionId requestConfig =
     (if \<not> isConnected st connectionId
      then \<lparr> result = Inl (ConnectionInactive connectionId), calls = [], waits = [], vpn = st \<rparr>
      else retry_loop h tr connectionId requestConfig st 1 None)"

subsection \<open>createMiddleware\<close>

text \<open>
  The inbound request as Express hands it over: header names in lower case, the parsed
  query string, and the parsed body (an object, empty when the request has none).
\<close>

record request =
  req_method :: string
  req_headers :: "string \<rightharpoonup> string"
  query :: "string \<rightharpoonup> string"
  body :: "string \<rightharpoonup> string"

datatype json_body =
    Fields "(string \<times> string) list"
  | Relayed string response

record reply =
  code :: int
  set_headers :: "(string \<times> string) list"
  json :: json_body

text \<open>
  The reply of the middleware, and what \<open>handleRequest\<close> did if it was called.
\<close>

record handled =
  reply :: reply
  forwarded :: "outcome option"

definition truthy :: "string option \<Rightarrow> bool" where
  "truthy v = (case v of None \<Rightarrow> False | Some x \<Rightarrow> x \<noteq> [])"

definition show_status :: "conn_status \<Rightarrow> string" where
  "show_status s =
     (case s of Connected \<Rightarrow> ''connected'' | Connecting \<Rightarrow> ''connecting''
      | Disconnected \<Rightarrow> ''disconnected'' | Error \<Rightarrow> ''error'')"

definition toLowerCase :: "string \<Rightarrow> string" where
  "toLowerCase x =
     map (\<lambda>c. let n = (of_char c :: nat) in if 65 \<le> n \<and> n \<le> 90 then char_of (n + 32) else c) x"

definition relayed_headers :: "(string \<times> string) list \<Rightarrow> (string \<times> string) list" where
  "relayed_headers hs =
     filter (\<lambda>(key, v). toLowerCase key \<notin> set [''transfer-encoding'', ''connection'', ''keep-alive'']) hs"

text \<open>
  Lines 573 to 644. \<open>valid_url\<close> says whether \<^verbatim>\<open>new URL(targetUrl)\<close> returns.
\<close>

definition createMiddleware ::
  "proxy_handler \<Rightarrow> (string \<Rightarrow> bool) \<Rightarrow> transport \<Rightarrow> vpn_state \<Rightarrow> string \<Rightarrow> request \<Rightarrow> handled" where
  "createMiddleware h valid_url tr st connectionId req =
     (let targetUrl = (if truthy (query req ''url'') then query req ''url'' else body req ''url'')
      in if \<not> truthy targetUrl
         then \<lparr> reply = \<lparr> code = 400, set_headers = [],
                    json = Fields [(''error'', ''Target URL is required''),
                      (''usage'', ''Provide URL in query parameter: ?url=https://example.com'')] \<rparr>,
                forwarded = None \<rparr>
         else if \<not> valid_url (the targetUrl)
         then \<lparr> reply = \<lparr> code = 400, set_headers = [],
                    json = Fields [(''error'', ''Invalid URL format'')] \<rparr>,
                forwarded = None \<rparr>
         else
           (let requestConfig =
                  \<lparr> http_method = req_method req, url = the targetUrl,
                    headers = (req_headers req)(''host'' := None, ''content-length'' := None),
                    params = (query req)(''url'' := None),
                    data = body req \<rparr>;
                r = handleRequest h tr st connectionId requestConfig
            in case result r of
                 Inr response \<Rightarrow>
                   \<lparr> reply = \<lparr> code = status response,
                       set_headers = relayed_headers (response_headers response),
                       json = Relayed connectionId response \<rparr>,
                     forwarded = Some r \<rparr>
               | Inl e \<Rightarrow>
                   \<lparr> reply = \<lparr> code = 500, set_headers = [],
                       json = Fields [(''error'', ''Proxy request failed''),
                         (''message'', message e),
                         (''vpnConnection'', connectionId),
                         (''vpnStatus'', show_status (getStatus (vpn r) connectionId))] \<rparr>,
                     forwarded = Some r \<rparr>))"

subsection \<open>The server\<close>

text \<open>
  \<^verbatim>\<open>app.all(endpointPath, proxyHandler.createMiddleware(connectionId))\<close> with the handler
  built at startup from \<^verbatim>\<open>process.env\<close>. The middleware catches every error itself and
  never calls \<^verbatim>\<open>next\<close>.
\<close>

definition app_all ::
  "process_env \<Rightarrow> (string \<Rightarrow> bool) \<Rightarrow> transport \<Rightarrow> vpn_state \<Rightarrow> string \<Rightarrow> request \<Rightarrow> handled" where
  "app_all env valid_url tr st connectionId req =
     createMiddleware (ProxyHandler env) valid_url tr st connectionId req"

text \<open>
  Lines 216 to 222: the error handling middleware at the end of the chain, for errors that
  no route caught.
\<close>

definition error_middleware :: "process_env \<Rightarrow> js_error \<Rightarrow> reply" where
  "error_middleware env e =
     \<lparr> code = 500, set_headers = [],
       json = Fields [(''error'', ''Internal server error''),
         (''message'', if NODE_ENV env = Some ''development'' then message e
                       else ''Something went wrong'')] \<rparr>"

section \<open>Runs of one connection\<close>

text \<open>
  The callbacks that follow one another after a connection has dropped: the \<^verbatim>\<open>'exit'\<close>
  event of a process; a reconnect timer coming due (with the number of the attempt and
  the time at which it does), its \<open>startVPN\<close> running up to the first suspension; the
  probe loop of such a start timing out; the probe loop of such a start seeing the
  tunnel.
\<close>

datatype event =
    Exit "int option" "string option"
  | ReconnectDue int int
  | ProbeTimeout int
  | ProbeSuccess

fun step :: "(string \<Rightarrow> bool) \<Rightarrow> string \<Rightarrow> string \<Rightarrow> event \<Rightarrow> vpn_state \<Rightarrow> vpn_state" where
  "step existsSync connectionId proto (Exit c s) st = on_exit connectionId proto c s st"
| "step existsSync connectionId proto (ReconnectDue attempt now) st =
     reconnect_timer_begins existsSync now connectionId proto attempt st"
| "step existsSync connectionId proto (ProbeTimeout attempt) st =
     reconnect_timer_times_out connectionId attempt st"
| "step existsSync connectionId proto ProbeSuccess st =
     reconnect_timer_succeeds connectionId st"

fun run :: "(string \<Rightarrow> bool) \<Rightarrow> string \<Rightarrow> string \<Rightarrow> event list \<Rightarrow> vpn_state \<Rightarrow> vpn_state" where
  "run existsSync connectionId proto [] st = st"
| "run existsSync connectionId proto (e # es) st =
     run existsSync connectionId proto es (step existsSync connectionId proto e st)"

text \<open>
  An exit is unintentional when the handler hands it to the reconnect policy.
\<close>

fun unintentional :: "event \<Rightarrow> bool" where
  "unintentional (Exit c s) \<longleftrightarrow> c \<noteq> Some 0 \<and> (s = None \<or> s = Some [])"
| "unintentional e \<longleftrightarrow> False"

fun is_exit :: "event \<Rightarrow> bool" where
  "is_exit (Exit c s) \<longleftrightarrow> True"
| "is_exit e \<longleftrightarrow> False"

text \<open>
  A run of consecutive unintentional exits: every exit in it is unintentional and no
  reconnect gets to connected in between.
\<close>

definition crash_loop :: "event list \<Rightarrow> bool" where
  "crash_loop es \<longleftrightarrow> list_all (\<lambda>e. (is_exit e \<longrightarrow> unintentional e) \<and> e \<noteq> ProbeSuccess) es"

definition exits :: "event list \<Rightarrow> nat" where
  "exits es = length (filter is_exit es)"

fun is_reconnect :: "string \<Rightarrow> timer \<Rightarrow> bool" where
  "is_reconnect n (ReconnectTimer m p d) \<longleftrightarrow> m = n"
| "is_reconnect n (KillTimer m pid d) \<longleftrightarrow> False"

definition reconnects_scheduled :: "vpn_state \<Rightarrow> string \<Rightarrow> nat" where
  "reconnects_scheduled st n = length (filter (is_reconnect n) (scheduled st))"

definition attempts_of :: "vpn_state \<Rightarrow> string \<Rightarrow> int" where
  "attempts_of st n = (case reconnectAttempts st n of None \<Rightarrow> 0 | Some a \<Rightarrow> a)"

section \<open>Example environments\<close>

definition files_present :: "string \<Rightarrow> bool" where
  "files_present p = True"

definition any_url :: "string \<Rightarrow> bool" where
  "any_url u = True"

definition quiet :: "nat \<Rightarrow> vpn_state \<Rightarrow> vpn_state" where
  "quiet k st = st"

definition instant :: "nat \<Rightarrow> nat" where
  "instant k = 0"

definition never_up :: probe_env where
  "never_up = \<lparr> sees_tun = (\<lambda>k. False), exec_ms = instant, late_ms = instant, meanwhile = quiet \<rparr>"

definition up_at_second_poll :: probe_env where
  "up_at_second_poll =
     \<lparr> sees_tun = (\<lambda>k. 1 \<le> k), exec_ms = instant, late_ms = instant, meanwhile = quiet \<rparr>"

definition site_a_connected :: vpn_state where
  "site_a_connected =
     snd (snd (startVPN up_at_second_poll files_present 0 ''site-a'' ''tcp'' constructor))"

definition site_a_connecting :: vpn_state where
  "site_a_connecting = snd (startVPN_begin files_present 0 ''site-a'' ''tcp'' constructor)"

definition site_a_dropped :: vpn_state where
  "site_a_dropped = on_exit ''site-a'' ''tcp'' (Some 1) None site_a_connected"

definition crash :: event where
  "crash = Exit (Some 1) None"

text \<open>
  No poll sees the tunnel, and the process exits with code 1 while the first poll runs.
\<close>

definition crash_during_probe :: probe_env where
  "crash_during_probe =
     \<lparr> sees_tun = (\<lambda>k. False), exec_ms = instant, late_ms = instant,
       meanwhile = (\<lambda>k st. if k = 0 then on_exit ''site-a'' ''tcp'' (Some 1) None st else st) \<rparr>"

definition three_crashes :: "event list" where
  "three_crashes = [crash, ReconnectDue 1 5000, crash, ReconnectDue 2 10000, crash]"

definition four_crashes :: "event list" where
  "four_crashes = three_crashes @ [ReconnectDue 3 15000, crash]"

definition three_timeouts :: "event list" where
  "three_timeouts = [ProbeTimeout 1, ProbeTimeout 2, ProbeTimeout 3]"

definition refused :: "int \<Rightarrow> string" where
  "refused attempt = ''connect ECONNREFUSED #'' @ show_int attempt"

text \<open>
  A transport on which every attempt fails; the connection stays as it is in \<open>st\<close>, or is
  as in \<open>st'\<close> from the failure of attempt \<open>k\<close> on.
\<close>

definition failing :: "vpn_state \<Rightarrow> transport" where
  "failing st = \<lparr> axios = (\<lambda>attempt t c. Inl (refused attempt)), vpn_after = (\<lambda>attempt. st) \<rparr>"

definition dropping :: "vpn_state \<Rightarrow> int \<Rightarrow> vpn_state \<Rightarrow> transport" where
  "dropping st k st' =
     \<lparr> axios = (\<lambda>attempt t c. Inl (refused attempt)),
       vpn_after = (\<lambda>attempt. if attempt < k then st else st') \<rparr>"

definition ok_response :: response where
  "ok_response = \<lparr> status = 200, statusText = ''OK'',
                   response_headers = [(''Content-Type'', ''text/plain''), (''Connection'', ''close'')],
                   response_data = ''ok'' \<rparr>"

definition answering :: "vpn_state \<Rightarrow> transport" where
  "answering st = \<lparr> axios = (\<lambda>attempt t c. Inr ok_response), vpn_after = (\<lambda>attempt. st) \<rparr>"

definition default_env :: process_env where
  "default_env = \<lparr> NODE_ENV = None, REQUEST_TIMEOUT = None, MAX_RETRIES = None \<rparr>"

definition production_env :: process_env where
  "production_env = \<lparr> NODE_ENV = Some ''production'', REQUEST_TIMEOUT = None, MAX_RETRIES = None \<rparr>"

definition get_example :: request_config where
  "get_example = \<lparr> http_method = ''GET'', url = ''https://example.test/ok'',
                   headers = Map.empty, params = Map.empty, data = Map.empty \<rparr>"

definition inbound_example :: request where
  "inbound_example =
     \<lparr> req_method = ''GET'',
       req_headers = [''host'' \<mapsto> ''localhost:3000'', ''content-length'' \<mapsto> ''0'',
                      ''accept'' \<mapsto> ''*/*''],
       query = [''url'' \<mapsto> ''https://example.test/ok'', ''page'' \<mapsto> ''2''],
       body = Map.empty \<rparr>"

definition inbound_no_url :: request where
  "inbound_no_url =
     \<lparr> req_method = ''GET'', req_headers = [''host'' \<mapsto> ''localhost:3000''],
       query = [''page'' \<mapsto> ''2''], body = Map.empty \<rparr>"

section \<open>Properties\<close>

subsection \<open>The example states\<close>

lemma site_a_connected_status: "connectionStatus site_a_connected ''site-a'' = Some Connected"
  by (simp add: site_a_connected_def startVPN_def startVPN_spawn_def isConnected_def
      constructor_def files_present_def logger_def waitForConnection_def
      checkConnection.simps up_at_second_poll_def set_status_def instant_def quiet_def
      checkInterval_def Let_def)

lemma site_a_connecting_status: "connectionStatus site_a_connecting ''site-a'' = Some Connecting"
  by (simp add: site_a_connecting_def startVPN_begin_def startVPN_spawn_def isConnected_def
      constructor_def files_present_def logger_def set_status_def Let_def)

lemma site_a_dropped_status: "connectionStatus site_a_dropped ''site-a'' = Some Disconnected"
  by (simp add: site_a_dropped_def on_exit_def attemptReconnect_def logger_def set_status_def Let_def)

subsection \<open>The retry loop\<close>

lemma retry_loop_calls: "set (calls (retry_loop h tr n cfg st a le)) \<subseteq> {cfg}"
proof (induction h tr n cfg st a le rule: retry_loop.induct)
  case (1 h tr n cfg st a le)
  show ?case
    using 1
    by (subst retry_loop.simps) (auto simp: sent_def after_loop_def split: sum.splits)
qed

lemma retry_all_fail:
  assumes "\<forall>b. a \<le> b \<and> b \<le> maxRetries h \<longrightarrow>
             axios tr b (timeout h) cfg = Inl (err b) \<and> isConnected (vpn_after tr b) n"
  shows "a \<le> maxRetries h \<Longrightarrow>
         retry_loop h tr n cfg st a le =
           \<lparr> result = Inl (ForwardExhausted (maxRetries h) (err (maxRetries h))),
             calls = replicate (nat (maxRetries h + 1 - a)) cfg,
             waits = map (\<lambda>b. 1000 * b) [a..maxRetries h - 1],
             vpn = vpn_after tr (maxRetries h) \<rparr>"
  using assms
proof (induction h tr n cfg st a le rule: retry_loop.induct)
  case (1 h tr n cfg st a le)
  have ax: "axios tr a (timeout h) cfg = Inl (err a)" and con: "isConnected (vpn_after tr a) n"
    using "1.prems" by auto
  show ?case
  proof (cases "a = maxRetries h")
    case True
    then show ?thesis
      using ax con
      by (subst retry_loop.simps, subst retry_loop.simps) (simp add: sent_def after_loop_def)
  next
    case False
    then have lt: "a < maxRetries h" using "1.prems" by simp
    have ih: "retry_loop h tr n cfg (vpn_after tr a) (a + 1) (Some (err a)) =
           \<lparr> result = Inl (ForwardExhausted (maxRetries h) (err (maxRetries h))),
             calls = replicate (nat (maxRetries h + 1 - (a + 1))) cfg,
             waits = map (\<lambda>b. 1000 * b) [a + 1..maxRetries h - 1],
             vpn = vpn_after tr (maxRetries h) \<rparr>"
      using "1.IH" [of "err a"] ax con lt "1.prems" by auto
    have up: "[a..maxRetries h - 1] = a # [a + 1..maxRetries h - 1]"
      using lt by (simp add: upto_rec1)
    have "nat (maxRetries h + 1 - a) = Suc (nat (maxRetries h + 1 - (a + 1)))"
      using lt by arith
    then have rep: "replicate (nat (maxRetries h + 1 - a)) cfg = cfg # replicate (nat (maxRetries h + 1 - (a + 1))) cfg"
      by simp
    show ?thesis
      using ax con lt
      by (subst retry_loop.simps) (simp add: sent_def ih up rep)
  qed
qed


lemma retry_drop:
  assumes "\<forall>b. a \<le> b \<and> b \<le> k \<longrightarrow> axios tr b (timeout h) cfg = Inl (err b)"
    and "\<forall>b. a \<le> b \<and> b < k \<longrightarrow> isConnected (vpn_after tr b) n"
    and "\<not> isConnected (vpn_after tr k) n"
    and "k \<le> maxRetries h"
  shows "a \<le> k \<Longrightarrow>
         retry_loop h tr n cfg st a le =
           \<lparr> result = Inl (ForwardExhausted (maxRetries h) (err k)),
             calls = replicate (nat (k + 1 - a)) cfg,
             waits = map (\<lambda>b. 1000 * b) [a..k - 1],
             vpn = vpn_after tr k \<rparr>"
  using assms
proof (induction h tr n cfg st a le rule: retry_loop.induct)
  case (1 h tr n cfg st a le)
  have ax: "axios tr a (timeout h) cfg = Inl (err a)" and am: "a \<le> maxRetries h"
    using "1.prems" by auto
  show ?case
  proof (cases "a = k")
    case True
    then show ?thesis
      using ax am "1.prems"(4)
      by (subst retry_loop.simps) (simp add: sent_def after_loop_def)
  next
    case False
    then have lt: "a < k" using "1.prems" by simp
    then have con: "isConnected (vpn_after tr a) n" using "1.prems" by simp
    have ih: "retry_loop h tr n cfg (vpn_after tr a) (a + 1) (Some (err a)) =
           \<lparr> result = Inl (ForwardExhausted (maxRetries h) (err k)),
             calls = replicate (nat (k + 1 - (a + 1))) cfg,
             waits = map (\<lambda>b. 1000 * b) [a + 1..k - 1],
             vpn = vpn_after tr k \<rparr>"
      using "1.IH" [of "err a"] ax con lt am "1.prems" by auto
    have up: "[a..k - 1] = a # [a + 1..k - 1]"
      using lt by (simp add: upto_rec1)
    have "nat (k + 1 - a) = Suc (nat (k + 1 - (a + 1)))"
      using lt by arith
    then have rep: "replicate (nat (k + 1 - a)) cfg = cfg # replicate (nat (k + 1 - (a + 1))) cfg"
      by simp
    have "a < maxRetries h" using lt "1.prems" by simp
    then show ?thesis
      using ax con am
      by (subst retry_loop.simps) (simp add: sent_def ih up rep)
  qed
qed


lemma handleRequest_calls: "c \<in> set (calls (handleRequest h tr st n cfg)) \<Longrightarrow> c = cfg"
  using retry_loop_calls [of h tr n cfg st 1 None]
  by (auto simp: handleRequest_def split: if_splits)

subsection \<open>Claims about the forwarder\<close>

text \<open>
  C3. For every connection whose state is not exactly connected, \<open>handleRequest\<close> throws
  the error "VPN connection ... is not active" at once: no request is sent, nothing is
  waited for, and the manager is left as it was (no start is attempted).
\<close>

theorem forward_inactive:
  assumes "getStatus st n \<noteq> Connected"
  shows "handleRequest h tr st n cfg =
           \<lparr> result = Inl (ConnectionInactive n), calls = [], waits = [], vpn = st \<rparr>"
  using assms
  by (auto simp: handleRequest_def isConnected_def getStatus_def)

theorem forward_inactive_witness:
  "getStatus site_a_connecting ''site-a'' \<noteq> Connected
   \<and> result (handleRequest (ProxyHandler default_env) (answering site_a_connecting)
        site_a_connecting ''site-a'' get_example) = Inl (ConnectionInactive ''site-a'')
   \<and> calls (handleRequest (ProxyHandler default_env) (answering site_a_connecting)
        site_a_connecting ''site-a'' get_example) = []
   \<and> spawned (vpn (handleRequest (ProxyHandler default_env) (answering site_a_connecting)
        site_a_connecting ''site-a'' get_example)) = spawned site_a_connecting"
proof -
  have h: "getStatus site_a_connecting ''site-a'' \<noteq> Connected"
    by (simp add: getStatus_def site_a_connecting_status)
  show ?thesis
    using h forward_inactive [OF h, of "ProxyHandler default_env" "answering site_a_connecting" get_example]
    by simp
qed

text \<open>
  C4. When every transport attempt fails and the connection is still connected after each
  failure, \<open>handleRequest\<close> with a maximum of at least one attempt sends the request exactly
  that many times, waits 1000 ms times the attempt number after each attempt but the
  last, and throws "Request failed after ... attempts: " followed by the message of the
  last transport error.
\<close>

theorem forward_exhausted:
  assumes "1 \<le> maxRetries h" and "isConnected st n"
    and "\<forall>a. 1 \<le> a \<and> a \<le> maxRetries h \<longrightarrow>
           axios tr a (timeout h) cfg = Inl (err a) \<and> isConnected (vpn_after tr a) n"
  shows "result (handleRequest h tr st n cfg)
           = Inl (ForwardExhausted (maxRetries h) (err (maxRetries h)))
         \<and> calls (handleRequest h tr st n cfg) = replicate (nat (maxRetries h)) cfg
         \<and> waits (handleRequest h tr st n cfg) = map (\<lambda>a. 1000 * a) [1..maxRetries h - 1]
         \<and> message (ForwardExhausted (maxRetries h) (err (maxRetries h)))
           = ''Request failed after '' @ show_int (maxRetries h) @ '' attempts: ''
             @ err (maxRetries h)"
  using assms retry_all_fail [of 1 h tr cfg err n st None]
  by (simp add: handleRequest_def)

theorem forward_exhausted_witness:
  "1 \<le> maxRetries (ProxyHandler default_env) \<and> isConnected site_a_connected ''site-a''
   \<and> result (handleRequest (ProxyHandler default_env) (failing site_a_connected)
        site_a_connected ''site-a'' get_example)
       = Inl (ForwardExhausted 3 ''connect ECONNREFUSED #3'')
   \<and> length (calls (handleRequest (ProxyHandler default_env) (failing site_a_connected)
        site_a_connected ''site-a'' get_example)) = 3
   \<and> waits (handleRequest (ProxyHandler default_env) (failing site_a_connected)
        site_a_connected ''site-a'' get_example) = [1000, 2000]"
proof -
  have m: "maxRetries (ProxyHandler default_env) = 3"
    by (simp add: ProxyHandler_def default_env_def or_default_def)
  have c: "isConnected site_a_connected ''site-a''"
    by (simp add: isConnected_def site_a_connected_status)
  have f: "\<forall>a. 1 \<le> a \<and> a \<le> maxRetries (ProxyHandler default_env) \<longrightarrow>
           axios (failing site_a_connected) a (timeout (ProxyHandler default_env)) get_example
             = Inl (refused a)
           \<and> isConnected (vpn_after (failing site_a_connected) a) ''site-a''"
    by (simp add: failing_def c)
  have u: "[1..2::int] = [1, 2]"
    by (simp add: upto_rec1)
  have r: "refused 3 = ''connect ECONNREFUSED #3''"
    by (simp add: refused_def show_int_def show_nat.simps)
  show ?thesis
    using forward_exhausted [of "ProxyHandler default_env" site_a_connected "''site-a''"
        "failing site_a_connected" get_example refused] m c f
    by (simp add: u r)
qed

text \<open>
  C5, as stated, fails: the state of the connection is read only by the check that
  follows a failed attempt, before the backoff. A connection that is still connected at
  the check after the second failure and drops during the backoff that follows gets the
  third attempt all the same; the drop is seen after that attempt has failed, when the
  configured three attempts are used up.
\<close>

theorem drop_seen_after_last_attempt:
  "maxRetries (ProxyHandler default_env) = 3
   \<and> isConnected (vpn_after (dropping site_a_connected 3 site_a_dropped) 2) ''site-a''
   \<and> \<not> isConnected (vpn_after (dropping site_a_connected 3 site_a_dropped) 3) ''site-a''
   \<and> length (calls (handleRequest (ProxyHandler default_env)
        (dropping site_a_connected 3 site_a_dropped) site_a_connected ''site-a'' get_example)) = 3
   \<and> waits (handleRequest (ProxyHandler default_env)
        (dropping site_a_connected 3 site_a_dropped) site_a_connected ''site-a'' get_example)
     = [1000, 2000]
   \<and> result (handleRequest (ProxyHandler default_env)
        (dropping site_a_connected 3 site_a_dropped) site_a_connected ''site-a'' get_example)
     = Inl (ForwardExhausted 3 ''connect ECONNREFUSED #3'')"
proof -
  have c: "isConnected site_a_connected ''site-a''"
    by (simp add: isConnected_def site_a_connected_status)
  have d: "\<not> isConnected site_a_dropped ''site-a''"
    by (simp add: isConnected_def site_a_dropped_status)
  have r: "refused 3 = ''connect ECONNREFUSED #3''"
    by (simp add: refused_def show_int_def show_nat.simps)
  show ?thesis
    using c d
    by (simp add: handleRequest_def retry_loop.simps ProxyHandler_def default_env_def
        or_default_def dropping_def sent_def after_loop_def r)
qed

text \<open>
  C5, amended. When the \<open>k\<close>-th attempt is made and fails (the attempts before it have
  failed with the connection still connected at the check after each) and the check
  after that failure finds the connection not connected, \<open>handleRequest\<close> abandons the
  retries at once: it has sent the request \<open>k\<close> times, waits no backoff after the \<open>k\<close>-th
  failure, and throws with the message of the \<open>k\<close>-th transport error. That is before the
  configured number of attempts is used up whenever \<open>k\<close> is below the maximum.
\<close>

theorem forward_drop:
  assumes "isConnected st n" and "1 \<le> k" and "k \<le> maxRetries h"
    and "\<forall>a. 1 \<le> a \<and> a \<le> k \<longrightarrow> axios tr a (timeout h) cfg = Inl (err a)"
    and "\<forall>a. 1 \<le> a \<and> a < k \<longrightarrow> isConnected (vpn_after tr a) n"
    and "\<not> isConnected (vpn_after tr k) n"
  shows "calls (handleRequest h tr st n cfg) = replicate (nat k) cfg
         \<and> waits (handleRequest h tr st n cfg) = map (\<lambda>a. 1000 * a) [1..k - 1]
         \<and> result (handleRequest h tr st n cfg) = Inl (ForwardExhausted (maxRetries h) (err k))
         \<and> vpn (handleRequest h tr st n cfg) = vpn_after tr k
         \<and> (k < maxRetries h \<longrightarrow> int (length (calls (handleRequest h tr st n cfg))) < maxRetries h)"
  using assms retry_drop [of 1 k tr h cfg err n st None]
  by (simp add: handleRequest_def)

theorem forward_drop_witness:
  "isConnected site_a_connected ''site-a'' \<and> \<not> isConnected site_a_dropped ''site-a''
   \<and> (2::int) < maxRetries (ProxyHandler default_env)
   \<and> length (calls (handleRequest (ProxyHandler default_env)
        (dropping site_a_connected 2 site_a_dropped) site_a_connected ''site-a'' get_example)) = 2
   \<and> waits (handleRequest (ProxyHandler default_env)
        (dropping site_a_connected 2 site_a_dropped) site_a_connected ''site-a'' get_example) = [1000]
   \<and> result (handleRequest (ProxyHandler default_env)
        (dropping site_a_connected 2 site_a_dropped) site_a_connected ''site-a'' get_example)
       = Inl (ForwardExhausted 3 ''connect ECONNREFUSED #2'')"
proof -
  have m: "maxRetries (ProxyHandler default_env) = 3"
    by (simp add: ProxyHandler_def default_env_def or_default_def)
  have c: "isConnected site_a_connected ''site-a''"
    by (simp add: isConnected_def site_a_connected_status)
  have d: "\<not> isConnected site_a_dropped ''site-a''"
    by (simp add: isConnected_def site_a_dropped_status)
  have u: "[1..1::int] = [1]"
    by (simp add: upto_rec1)
  have r: "refused 2 = ''connect ECONNREFUSED #2''"
    by (simp add: refused_def show_int_def show_nat.simps)
  show ?thesis
    using forward_drop [of site_a_connected "''site-a''" 2 "ProxyHandler default_env"
        "dropping site_a_connected 2 site_a_dropped" get_example refused] m c d
    by (simp add: u r dropping_def)
qed


text \<open>
  C7. Whatever the inbound request holds, every request that the middleware has
  \<open>handleRequest\<close> send carries no \<open>host\<close> header, no \<open>content-length\<close> header and no
  \<open>url\<close> query parameter.
\<close>

theorem forward_sanitized:
  assumes "forwarded (createMiddleware h valid_url tr st n req) = Some r"
    and "c \<in> set (calls r)"
  shows "headers c ''host'' = None \<and> headers c ''content-length'' = None
         \<and> params c ''url'' = None"
proof -
  let ?cfg = "\<lparr> http_method = req_method req,
                 url = the (if truthy (query req ''url'') then query req ''url'' else body req ''url''),
                 headers = (req_headers req)(''host'' := None, ''content-length'' := None),
                 params = (query req)(''url'' := None),
                 data = body req \<rparr>"
  have "r = handleRequest h tr st n ?cfg"
    using assms(1)
    by (auto simp: createMiddleware_def Let_def split: if_splits sum.splits)
  then have "c = ?cfg"
    using assms(2) handleRequest_calls by blast
  then show ?thesis by simp
qed

theorem forward_sanitized_witness:
  "req_headers inbound_example ''host'' = Some ''localhost:3000''
   \<and> req_headers inbound_example ''content-length'' = Some ''0''
   \<and> query inbound_example ''url'' = Some ''https://example.test/ok''
   \<and> length (calls (the (forwarded (createMiddleware (ProxyHandler default_env) any_url
          (answering site_a_connected) site_a_connected ''site-a'' inbound_example)))) = 1
   \<and> headers (hd (calls (the (forwarded (createMiddleware (ProxyHandler default_env) any_url
          (answering site_a_connected) site_a_connected ''site-a'' inbound_example))))) ''host'' = None
   \<and> headers (hd (calls (the (forwarded (createMiddleware (ProxyHandler default_env) any_url
          (answering site_a_connected) site_a_connected ''site-a'' inbound_example)))))
         ''content-length'' = None
   \<and> params (hd (calls (the (forwarded (createMiddleware (ProxyHandler default_env) any_url
          (answering site_a_connected) site_a_connected ''site-a'' inbound_example))))) ''url'' = None"
proof -
  let ?m = "createMiddleware (ProxyHandler default_env) any_url
          (answering site_a_connected) site_a_connected ''site-a'' inbound_example"
  have c: "isConnected site_a_connected ''site-a''"
    by (simp add: isConnected_def site_a_connected_status)
  have f: "forwarded ?m = Some (the (forwarded ?m))"
    by (simp add: createMiddleware_def Let_def inbound_example_def truthy_def any_url_def
        handleRequest_def c retry_loop.simps ProxyHandler_def default_env_def or_default_def
        answering_def sent_def)
  have l: "length (calls (the (forwarded ?m))) = 1"
    by (simp add: createMiddleware_def Let_def inbound_example_def truthy_def any_url_def
        handleRequest_def c retry_loop.simps ProxyHandler_def default_env_def or_default_def
        answering_def sent_def)
  then have e: "hd (calls (the (forwarded ?m))) \<in> set (calls (the (forwarded ?m)))"
    by (cases "calls (the (forwarded ?m))") simp_all
  show ?thesis
    using forward_sanitized [OF f e] l
    by (simp add: inbound_example_def)
qed

text \<open>
  C10. An inbound request with no (or an empty) \<open>url\<close> in both the query and the body is
  answered with status 400 and the error "Target URL is required"; \<open>handleRequest\<close> is
  not called, so the state of the connection is not read and nothing is sent, whatever
  the handler, the transport and the manager are.
\<close>

theorem no_target_url:
  assumes "\<not> truthy (query req ''url'')" and "\<not> truthy (body req ''url'')"
  shows "createMiddleware h valid_url tr st n req =
           \<lparr> reply = \<lparr> code = 400, set_headers = [],
               json = Fields [(''error'', ''Target URL is required''),
                 (''usage'', ''Provide URL in query parameter: ?url=https://example.com'')] \<rparr>,
             forwarded = None \<rparr>"
  using assms by (simp add: createMiddleware_def)

theorem no_target_url_witness:
  "\<not> truthy (query inbound_no_url ''url'') \<and> \<not> truthy (body inbound_no_url ''url'')
   \<and> isConnected site_a_connected ''site-a'' \<and> \<not> isConnected site_a_dropped ''site-a''
   \<and> code (reply (createMiddleware (ProxyHandler default_env) any_url (answering site_a_connected)
        site_a_connected ''site-a'' inbound_no_url)) = 400
   \<and> forwarded (createMiddleware (ProxyHandler default_env) any_url (answering site_a_connected)
        site_a_connected ''site-a'' inbound_no_url) = None
   \<and> reply (createMiddleware (ProxyHandler default_env) any_url (answering site_a_connected)
        site_a_dropped ''site-a'' inbound_no_url)
     = reply (createMiddleware (ProxyHandler default_env) any_url (answering site_a_connected)
        site_a_connected ''site-a'' inbound_no_url)"
proof -
  have q: "\<not> truthy (query inbound_no_url ''url'')" and b: "\<not> truthy (body inbound_no_url ''url'')"
    by (simp_all add: truthy_def inbound_no_url_def)
  have c: "isConnected site_a_connected ''site-a''"
    by (simp add: isConnected_def site_a_connected_status)
  have d: "\<not> isConnected site_a_dropped ''site-a''"
    by (simp add: isConnected_def site_a_dropped_status)
  show ?thesis
    using q b c d
      no_target_url [OF q b, of "ProxyHandler default_env" any_url "answering site_a_connected"
        site_a_connected "''site-a''"]
      no_target_url [OF q b, of "ProxyHandler default_env" any_url "answering site_a_connected"
        site_a_dropped "''site-a''"]
    by simp
qed

text \<open>
  C8, as stated, fails: with \<open>NODE_ENV\<close> set to production, the error that
  \<open>handleRequest\<close> throws for an inactive connection reaches the caller with its own
  message in the envelope, not a generic one.
\<close>

theorem proxy_error_exposed_in_production:
  "NODE_ENV production_env = Some ''production''
   \<and> json (reply (app_all production_env any_url (answering constructor) constructor
        ''website1-tcp'' inbound_example))
     = Fields [(''error'', ''Proxy request failed''),
         (''message'', ''VPN connection website1-tcp is not active''),
         (''vpnConnection'', ''website1-tcp''),
         (''vpnStatus'', ''disconnected'')]"
  by (simp add: app_all_def createMiddleware_def Let_def inbound_example_def truthy_def
      any_url_def handleRequest_def isConnected_def constructor_def getStatus_def
      show_status_def production_env_def)

text \<open>
  C8, amended. Every error that \<open>handleRequest\<close> throws is answered by the proxy
  middleware with status 500 and an envelope that holds the error's own message, the
  connection name and its status, whatever \<open>NODE_ENV\<close> is. A generic message is
  substituted only by the error handling middleware at the end of the chain, which shows
  the message only when \<open>NODE_ENV\<close> is development.
\<close>

theorem proxy_error_envelope:
  assumes "forwarded (app_all env valid_url tr st n req) = Some r" and "result r = Inl e"
  shows "reply (app_all env valid_url tr st n req) =
           \<lparr> code = 500, set_headers = [],
             json = Fields [(''error'', ''Proxy request failed''),
               (''message'', message e),
               (''vpnConnection'', n),
               (''vpnStatus'', show_status (getStatus (vpn r) n))] \<rparr>
         \<and> app_all (env\<lparr>NODE_ENV := mode\<rparr>) valid_url tr st n req = app_all env valid_url tr st n req
         \<and> json (error_middleware env e) =
             Fields [(''error'', ''Internal server error''),
               (''message'', if NODE_ENV env = Some ''development'' then message e
                             else ''Something went wrong'')]"
  using assms
  by (auto simp: app_all_def createMiddleware_def Let_def ProxyHandler_def error_middleware_def
      split: if_splits sum.splits)

theorem proxy_error_envelope_witness:
  "result (the (forwarded (app_all production_env any_url (answering constructor) constructor
        ''website1-tcp'' inbound_example))) = Inl (ConnectionInactive ''website1-tcp'')
   \<and> json (reply (app_all production_env any_url (answering constructor) constructor
        ''website1-tcp'' inbound_example))
     = Fields [(''error'', ''Proxy request failed''),
         (''message'', ''VPN connection website1-tcp is not active''),
         (''vpnConnection'', ''website1-tcp''),
         (''vpnStatus'', ''disconnected'')]
   \<and> json (error_middleware production_env (ConnectionInactive ''website1-tcp''))
     = Fields [(''error'', ''Internal server error''), (''message'', ''Something went wrong'')]"
proof -
  let ?m = "app_all production_env any_url (answering constructor) constructor
        ''website1-tcp'' inbound_example"
  have f: "forwarded ?m = Some (the (forwarded ?m))"
    by (simp add: app_all_def createMiddleware_def Let_def inbound_example_def truthy_def
        any_url_def handleRequest_def isConnected_def constructor_def)
  have r: "result (the (forwarded ?m)) = Inl (ConnectionInactive ''website1-tcp'')"
    by (simp add: app_all_def createMiddleware_def Let_def inbound_example_def truthy_def
        any_url_def handleRequest_def isConnected_def constructor_def)
  have v: "getStatus (vpn (the (forwarded ?m))) ''website1-tcp'' = Disconnected"
    by (simp add: app_all_def createMiddleware_def Let_def inbound_example_def truthy_def
        any_url_def handleRequest_def isConnected_def constructor_def getStatus_def)
  show ?thesis
    using proxy_error_envelope [OF f r, of None] r v
    by (simp add: show_status_def production_env_def)
qed


subsection \<open>The probe loop, the start and the exit handler\<close>

lemma check_never:
  assumes "\<forall>j\<ge>k. \<not> sees_tun env j"
  shows "fst (checkConnection env n tmo start k now st) = Inl (ConnectionTimeout n)
         \<and> tmo < fst (snd (checkConnection env n tmo start k now st)) - start
         \<and> connectionStatus (snd (snd (checkConnection env n tmo start k now st))) n = Some Error"
  using assms
proof (induction env n tmo start k now st rule: checkConnection.induct)
  case (1 env n tmo start k now st)
  have no: "\<not> sees_tun env k" using "1.prems" by simp
  show ?case
  proof (cases "now - start > tmo")
    case True
    then show ?thesis
      by (subst (1 2 3) checkConnection.simps) (simp add: set_status_def)
  next
    case False
    have "\<forall>j\<ge>Suc k. \<not> sees_tun env j" using "1.prems" by simp
    then show ?thesis
      using "1.IH" [OF False no] False no
      by (subst (1 2 3) checkConnection.simps) simp
  qed
qed

lemma check_deadline:
  assumes "\<forall>j. int (exec_ms env j) + int (late_ms env j) \<le> L"
  shows "fst (snd (checkConnection env n tmo start k now st))
         \<le> max now (start + tmo + checkInterval + L)"
  using assms
proof (induction env n tmo start k now st rule: checkConnection.induct)
  case (1 env n tmo start k now st)
  have b: "int (exec_ms env k) + int (late_ms env k) \<le> L" using "1.prems" by simp
  show ?case
  proof (cases "now - start > tmo")
    case True
    then show ?thesis
      by (subst checkConnection.simps) simp
  next
    case out: False
    show ?thesis
    proof (cases "sees_tun env k")
      case True
      then show ?thesis
        using out b by (subst checkConnection.simps) (simp add: checkInterval_def)
    next
      case False
      then show ?thesis
        using "1.IH" [OF out False "1.prems"] out b
        by (subst checkConnection.simps) (simp add: checkInterval_def)
    qed
  qed
qed

text \<open>
  The whole start is its first part followed by the probe loop, run from the state that
  the first part leaves.
\<close>

lemma startVPN_after_begin:
  "startVPN env existsSync now n p st =
     (case startVPN_begin existsSync now n p st of
        (Inl e, st') \<Rightarrow> (Inl e, now, st')
      | (Inr AlreadyActive, st') \<Rightarrow> (Inr True, now, st')
      | (Inr Awaiting, st') \<Rightarrow>
          (case checkConnection env n 30000 now 0 now st' of
             (Inr u, t, st'') \<Rightarrow>
               (Inr True, t,
                logger Info (''VPN connection '' @ n @ '' established successfully'') st'')
           | (Inl e, t, st'') \<Rightarrow>
               (Inl e, t,
                set_status n Error
                  (logger Err (''Failed to start VPN connection '' @ n @ '': '' @ message e)
                     st''))))"
  by (cases "startVPN_spawn existsSync now n p st")
    (auto simp: startVPN_def startVPN_begin_def waitForConnection_def
      split: prod.splits sum.splits started.splits)

lemma startVPN_connected:
  assumes "fst (startVPN env existsSync now n p st) = Inr b"
  shows "isConnected (snd (snd (startVPN env existsSync now n p st))) n"
proof (cases "startVPN_spawn existsSync now n p st")
  case (Pair r st1)
  show ?thesis
  proof (cases r)
    case (Inl e)
    then show ?thesis using assms Pair by (simp add: startVPN_def)
  next
    case (Inr x)
    show ?thesis
    proof (cases x)
      case AlreadyActive
      then have "isConnected st n"
        using Pair Inr by (auto simp: startVPN_spawn_def Let_def split: if_splits)
      then show ?thesis
        by (simp add: startVPN_def startVPN_spawn_def isConnected_def logger_def)
    next
      case Awaiting
      obtain w t st2 where w: "waitForConnection env n 30000 now st1 = (w, t, st2)"
        by (cases "waitForConnection env n 30000 now st1") auto
      have "\<exists>u. w = Inr u"
        using assms Pair Inr Awaiting w by (cases w) (simp_all add: startVPN_def)
      have c: "fst (checkConnection env n tmo start k t0 s0) = Inr u
            \<Longrightarrow> connectionStatus (snd (snd (checkConnection env n tmo start k t0 s0))) n = Some Connected"
        for tmo start k t0 s0 u
      proof (induction env n tmo start k t0 s0 rule: checkConnection.induct)
        case (1 env n tmo start k t0 s0)
        show ?case
          using 1
          by (subst checkConnection.simps, subst (asm) (2) checkConnection.simps)
            (auto simp: set_status_def split: if_splits)
      qed
      show ?thesis
        using assms Pair Inr Awaiting w c [of 30000 now 0 now "set_status n Connecting st1"]
        by (cases w) (simp_all add: startVPN_def isConnected_def logger_def waitForConnection_def)
    qed
  qed
qed

lemma on_exit_effect:
  "connectionStatus (on_exit n p c s st) n = Some Disconnected"
  "maxReconnectAttempts (on_exit n p c s st) = maxReconnectAttempts st"
  "attempts_of (on_exit n p c s st) n =
     (if unintentional (Exit c s) \<and> attempts_of st n < maxReconnectAttempts st
      then attempts_of st n + 1 else attempts_of st n)"
  "reconnects_scheduled (on_exit n p c s st) n =
     (if unintentional (Exit c s) \<and> attempts_of st n < maxReconnectAttempts st
      then Suc (reconnects_scheduled st n) else reconnects_scheduled st n)"
  by (auto simp: on_exit_def attemptReconnect_def logger_def set_status_def Let_def
      attempts_of_def reconnects_scheduled_def)

lemma on_exit_at_ceiling:
  assumes "maxReconnectAttempts st \<le> attempts_of st n"
  shows "scheduled (on_exit n p c s st) = scheduled st"
  using assms
  by (auto simp: on_exit_def attemptReconnect_def logger_def set_status_def Let_def
      attempts_of_def)

lemma reconnect_timer_begins_effect:
  assumes "\<not> isConnected st n"
  shows "\<not> isConnected (reconnect_timer_begins existsSync now n p a st) n"
    "maxReconnectAttempts (reconnect_timer_begins existsSync now n p a st) = maxReconnectAttempts st"
    "attempts_of (reconnect_timer_begins existsSync now n p a st) n = attempts_of st n"
    "reconnects_scheduled (reconnect_timer_begins existsSync now n p a st) n = reconnects_scheduled st n"
    "scheduled (reconnect_timer_begins existsSync now n p a st) = scheduled st"
    "getStatus (reconnect_timer_begins existsSync now n p a st) n =
       (if existsSync (configPath p) \<and> existsSync authPath then Connecting else getStatus st n)"
  using assms
  by (auto simp: reconnect_timer_begins_def startVPN_begin_def startVPN_spawn_def logger_def
      set_status_def Let_def attempts_of_def reconnects_scheduled_def isConnected_def
      getStatus_def)

lemma reconnect_timer_times_out_effect:
  "connectionStatus (reconnect_timer_times_out n a st) n = Some Error"
  "maxReconnectAttempts (reconnect_timer_times_out n a st) = maxReconnectAttempts st"
  "attempts_of (reconnect_timer_times_out n a st) n = attempts_of st n"
  "reconnects_scheduled (reconnect_timer_times_out n a st) n = reconnects_scheduled st n"
  "scheduled (reconnect_timer_times_out n a st) = scheduled st"
  by (simp_all add: reconnect_timer_times_out_def startVPN_times_out_def logger_def
      set_status_def attempts_of_def reconnects_scheduled_def)

text \<open>
  The two endings agree with the callback run as a whole, when nothing else touches the
  manager while the probe loop runs.
\<close>

lemma check_undisturbed:
  assumes "\<forall>j s. meanwhile env j s = s"
  shows "snd (snd (checkConnection env n tmo start k now st)) =
           (case fst (checkConnection env n tmo start k now st) of
              Inl e \<Rightarrow> set_status n Error st
            | Inr u \<Rightarrow> set_status n Connected st)"
  using assms
proof (induction env n tmo start k now st rule: checkConnection.induct)
  case (1 env n tmo start k now st)
  show ?case
    using 1
    by (subst (1 2) checkConnection.simps) (simp cong: sum.case_cong)
qed

lemma step_crash_loop:
  assumes "(is_exit e \<longrightarrow> unintentional e) \<and> e \<noteq> ProbeSuccess" and "\<not> isConnected st n"
  shows "\<not> isConnected (step existsSync n p e st) n
    \<and> maxReconnectAttempts (step existsSync n p e st) = maxReconnectAttempts st
    \<and> attempts_of (step existsSync n p e st) n =
       (if is_exit e \<and> attempts_of st n < maxReconnectAttempts st
        then attempts_of st n + 1 else attempts_of st n)
    \<and> reconnects_scheduled (step existsSync n p e st) n =
       (if is_exit e \<and> attempts_of st n < maxReconnectAttempts st
        then Suc (reconnects_scheduled st n) else reconnects_scheduled st n)
    \<and> (maxReconnectAttempts st \<le> attempts_of st n
       \<longrightarrow> scheduled (step existsSync n p e st) = scheduled st)"
proof (cases e)
  case (Exit c s)
  then have "unintentional (Exit c s)" using assms(1) by simp
  then show ?thesis
    using Exit by (simp add: on_exit_effect on_exit_at_ceiling isConnected_def del: unintentional.simps)
next
  case (ReconnectDue a t)
  then show ?thesis
    using reconnect_timer_begins_effect [OF assms(2), of existsSync t p a] by simp
next
  case (ProbeTimeout a)
  then show ?thesis
    by (simp add: reconnect_timer_times_out_effect isConnected_def)
next
  case ProbeSuccess
  then show ?thesis using assms(1) by simp
qed

lemma crash_loop_Cons:
  "crash_loop (e # es) \<longleftrightarrow> ((is_exit e \<longrightarrow> unintentional e) \<and> e \<noteq> ProbeSuccess) \<and> crash_loop es"
  by (simp add: crash_loop_def)

lemma crash_loop_append: "crash_loop (es @ es') \<longleftrightarrow> crash_loop es \<and> crash_loop es'"
  by (simp add: crash_loop_def)

lemma run_append:
  "run existsSync n p (es @ es') st = run existsSync n p es' (run existsSync n p es st)"
  by (induction es arbitrary: st) simp_all

lemma exits_Cons: "exits (e # es) = (if is_exit e then Suc (exits es) else exits es)"
  by (simp add: exits_def)

lemma run_crash_loop:
  assumes "crash_loop es" and "\<not> isConnected st n"
  shows "\<not> isConnected (run existsSync n p es st) n
         \<and> maxReconnectAttempts (run existsSync n p es st) = maxReconnectAttempts st
         \<and> attempts_of (run existsSync n p es st) n
             = max (attempts_of st n)
                 (min (maxReconnectAttempts st) (attempts_of st n + int (exits es)))
         \<and> int (reconnects_scheduled (run existsSync n p es st) n)
             = int (reconnects_scheduled st n)
               + (attempts_of (run existsSync n p es st) n - attempts_of st n)"
  using assms
proof (induction es arbitrary: st)
  case Nil
  then show ?case by (simp add: exits_def)
next
  case (Cons e es)
  have ev: "(is_exit e \<longrightarrow> unintentional e) \<and> e \<noteq> ProbeSuccess" and cl: "crash_loop es"
    using Cons.prems(1) by (simp_all add: crash_loop_Cons)
  note st = step_crash_loop [OF ev Cons.prems(2), of existsSync p]
  have nc: "\<not> isConnected (step existsSync n p e st) n" using st by simp
  show ?case
    using Cons.IH [OF cl nc] st
    by (simp add: exits_Cons) linarith
qed

lemma run_at_ceiling:
  assumes "crash_loop es" and "\<not> isConnected st n"
    and "maxReconnectAttempts st \<le> attempts_of st n"
  shows "scheduled (run existsSync n p es st) = scheduled st"
  using assms
proof (induction es arbitrary: st)
  case Nil
  then show ?case by simp
next
  case (Cons e es)
  have ev: "(is_exit e \<longrightarrow> unintentional e) \<and> e \<noteq> ProbeSuccess" and cl: "crash_loop es"
    using Cons.prems(1) by (simp_all add: crash_loop_Cons)
  note st = step_crash_loop [OF ev Cons.prems(2), of existsSync p]
  have nc: "\<not> isConnected (step existsSync n p e st) n" using st by simp
  have "maxReconnectAttempts (step existsSync n p e st) \<le> attempts_of (step existsSync n p e st) n"
    using Cons.prems(3) st by simp
  then show ?case
    using Cons.IH [OF cl nc] st Cons.prems(3) by simp
qed

lemma status_after_step:
  assumes "\<not> isConnected st n"
  shows "getStatus (step existsSync n p e st) n =
           (case e of
              Exit c s \<Rightarrow> Disconnected
            | ReconnectDue a t \<Rightarrow>
                if existsSync (configPath p) \<and> existsSync authPath then Connecting
                else getStatus st n
            | ProbeTimeout a \<Rightarrow> Error
            | ProbeSuccess \<Rightarrow> Connected)"
proof (cases e)
  case (Exit c s)
  then show ?thesis by (simp add: getStatus_def on_exit_effect(1))
next
  case (ReconnectDue a t)
  then show ?thesis using reconnect_timer_begins_effect(6) [OF assms] by simp
next
  case (ProbeTimeout a)
  then show ?thesis by (simp add: getStatus_def reconnect_timer_times_out_effect(1))
next
  case ProbeSuccess
  then show ?thesis
    by (simp add: getStatus_def reconnect_timer_succeeds_def logger_def set_status_def Let_def)
qed



lemma check_error:
  "fst (checkConnection env n tmo start k now st) = Inl e \<Longrightarrow> e = ConnectionTimeout n"
proof (induction env n tmo start k now st rule: checkConnection.induct)
  case (1 env n tmo start k now st)
  show ?case
    using 1
    by (subst (asm) (2) checkConnection.simps) (auto split: if_splits)
qed

lemma reconnect_timer_fires_undisturbed:
  assumes "\<not> isConnected st n" and "existsSync (configPath p)" and "existsSync authPath"
    and "\<forall>j s. meanwhile env j s = s"
  shows "snd (reconnect_timer_fires env existsSync now n p a st) =
           (case fst (startVPN env existsSync now n p st) of
              Inl e \<Rightarrow> reconnect_timer_times_out n a (reconnect_timer_begins existsSync now n p a st)
            | Inr b \<Rightarrow> reconnect_timer_succeeds n (reconnect_timer_begins existsSync now n p a st))"
proof -
  define st0 where "st0 = snd (startVPN_spawn existsSync now n p st)"
  define st1 where "st1 = set_status n Connecting st0"
  have sp: "startVPN_spawn existsSync now n p st = (Inr Awaiting, st0)"
    using assms(1-3) by (simp add: st0_def startVPN_spawn_def Let_def)
  have b: "reconnect_timer_begins existsSync now n p a st = st1"
    using sp by (simp add: reconnect_timer_begins_def startVPN_begin_def st1_def)
  obtain w t st2 where c: "checkConnection env n 30000 now 0 now st1 = (w, t, st2)"
    by (cases "checkConnection env n 30000 now 0 now st1") auto
  have st2: "st2 = (case w of Inl e \<Rightarrow> set_status n Error st1 | Inr u \<Rightarrow> set_status n Connected st1)"
    using check_undisturbed [OF assms(4), of n 30000 now 0 now st1] c by simp
  show ?thesis
  proof (cases w)
    case (Inl e)
    then have "e = ConnectionTimeout n"
      using check_error [of env n 30000 now 0 now st1 e] c by simp
    then show ?thesis
      using sp c st2 Inl
      by (simp add: reconnect_timer_fires_def startVPN_def waitForConnection_def b
          st1_def [symmetric] reconnect_timer_times_out_def startVPN_times_out_def)
  next
    case (Inr u)
    then show ?thesis
      using sp c st2
      by (simp add: reconnect_timer_fires_def startVPN_def waitForConnection_def b
          st1_def [symmetric] reconnect_timer_succeeds_def Let_def)
  qed
qed

lemma site_a_connected_fields:
  "reconnectAttempts site_a_connected ''site-a'' = None"
  "maxReconnectAttempts site_a_connected = 3"
  "scheduled site_a_connected = []"
  by (simp_all add: site_a_connected_def startVPN_def startVPN_spawn_def isConnected_def
      constructor_def files_present_def logger_def waitForConnection_def
      checkConnection.simps up_at_second_poll_def set_status_def instant_def quiet_def
      checkInterval_def Let_def)

subsection \<open>Claims about the manager\<close>

text \<open>
  C1, as stated, fails: a first start that has spawned its process and waits for the
  probe leaves the state connecting, and a second start made then spawns a second
  process for the same name.
\<close>

theorem start_twice_spawns_two:
  "getStatus (snd (startVPN_begin files_present 0 ''site-a'' ''tcp'' constructor)) ''site-a''
     = Connecting
   \<and> spawned (snd (snd (start_twice files_present 0 ''site-a'' ''tcp'' constructor)))
     = [(''site-a'', ''config/vpn-tcp.ovpn''), (''site-a'', ''config/vpn-tcp.ovpn'')]"
  by (simp add: start_twice_def startVPN_begin_def startVPN_spawn_def isConnected_def
      constructor_def files_present_def logger_def set_status_def Let_def configPath_def
      getStatus_def)

text \<open>
  C1, amended. A second start for a name, with no stop in between, spawns no process and
  returns success when the first start has completed with the connection connected. In
  any other state, connecting included, a start that finds both configuration files
  spawns one more process.
\<close>

theorem second_start:
  "(fst (startVPN env existsSync now n p st) = Inr b \<longrightarrow>
      fst (startVPN_begin existsSync now' n p (snd (snd (startVPN env existsSync now n p st))))
        = Inr AlreadyActive
      \<and> spawned (snd (startVPN_begin existsSync now' n p (snd (snd (startVPN env existsSync now n p st)))))
        = spawned (snd (snd (startVPN env existsSync now n p st))))
   \<and> (\<not> isConnected st' n \<and> existsSync (configPath p) \<and> existsSync authPath \<longrightarrow>
      fst (startVPN_begin existsSync now' n p st') = Inr Awaiting
      \<and> spawned (snd (startVPN_begin existsSync now' n p st')) = spawned st' @ [(n, configPath p)])"
  using startVPN_connected [of env existsSync now n p st b]
  by (simp add: startVPN_begin_def startVPN_spawn_def Let_def logger_def set_status_def)

theorem second_start_witness:
  "fst (startVPN up_at_second_poll files_present 0 ''site-a'' ''tcp'' constructor) = Inr True
   \<and> spawned site_a_connected = [(''site-a'', ''config/vpn-tcp.ovpn'')]
   \<and> spawned (snd (startVPN_begin files_present 1000 ''site-a'' ''tcp'' site_a_connected))
       = [(''site-a'', ''config/vpn-tcp.ovpn'')]
   \<and> \<not> isConnected site_a_connecting ''site-a''
   \<and> spawned site_a_connecting = [(''site-a'', ''config/vpn-tcp.ovpn'')]
   \<and> spawned (snd (startVPN_begin files_present 1000 ''site-a'' ''tcp'' site_a_connecting))
       = [(''site-a'', ''config/vpn-tcp.ovpn''), (''site-a'', ''config/vpn-tcp.ovpn'')]"
proof -
  have a: "fst (startVPN up_at_second_poll files_present 0 ''site-a'' ''tcp'' constructor) = Inr True"
    by (simp add: startVPN_def startVPN_spawn_def isConnected_def
      constructor_def files_present_def logger_def waitForConnection_def
      checkConnection.simps up_at_second_poll_def set_status_def instant_def quiet_def
      checkInterval_def Let_def)
  have s: "spawned site_a_connected = [(''site-a'', ''config/vpn-tcp.ovpn'')]"
    by (simp add: site_a_connected_def startVPN_def startVPN_spawn_def isConnected_def
      constructor_def files_present_def logger_def waitForConnection_def
      checkConnection.simps up_at_second_poll_def set_status_def instant_def quiet_def
      checkInterval_def Let_def configPath_def)
  have c: "\<not> isConnected site_a_connecting ''site-a''"
    by (simp add: isConnected_def site_a_connecting_status)
  have t: "spawned site_a_connecting = [(''site-a'', ''config/vpn-tcp.ovpn'')]"
    by (simp add: site_a_connecting_def startVPN_begin_def startVPN_spawn_def isConnected_def
      constructor_def files_present_def logger_def set_status_def Let_def configPath_def)
  have f: "files_present (configPath ''tcp'')" "files_present authPath"
    by (simp_all add: files_present_def)
  show ?thesis
    using a s c t f
      second_start [of up_at_second_poll files_present 0 "''site-a''" "''tcp''" constructor True
        1000 site_a_connecting]
    by (simp add: site_a_connected_def [symmetric] configPath_def)
qed

text \<open>
  C2, as stated, fails on both counts. With the default maximum of three, the handler of
  the third consecutive unintentional exit still schedules a start, and when that timer
  comes due the state goes to connecting. And past the ceiling the state does not stay
  disconnected either: when the process of the third reconnect exits while the probe loop
  of that start is running, nothing more is scheduled, but the loop goes on and at its
  timeout sets the state to error.
\<close>

theorem third_exit_schedules_start:
  "int (exits three_crashes) = maxReconnectAttempts site_a_connected
   \<and> scheduled (run files_present ''site-a'' ''tcp'' (butlast three_crashes) site_a_connected)
     = [ReconnectTimer ''site-a'' ''tcp'' 5000, ReconnectTimer ''site-a'' ''tcp'' 5000]
   \<and> scheduled (run files_present ''site-a'' ''tcp'' three_crashes site_a_connected)
     = [ReconnectTimer ''site-a'' ''tcp'' 5000, ReconnectTimer ''site-a'' ''tcp'' 5000,
        ReconnectTimer ''site-a'' ''tcp'' 5000]
   \<and> getStatus (run files_present ''site-a'' ''tcp'' (three_crashes @ [ReconnectDue 3 15000])
        site_a_connected) ''site-a'' = Connecting
   \<and> getStatus (snd (reconnect_timer_fires crash_during_probe files_present 15000 ''site-a''
        ''tcp'' 3 (run files_present ''site-a'' ''tcp'' three_crashes site_a_connected)))
        ''site-a'' = Error
   \<and> scheduled (snd (reconnect_timer_fires crash_during_probe files_present 15000 ''site-a''
        ''tcp'' 3 (run files_present ''site-a'' ''tcp'' three_crashes site_a_connected)))
     = [ReconnectTimer ''site-a'' ''tcp'' 5000, ReconnectTimer ''site-a'' ''tcp'' 5000,
        ReconnectTimer ''site-a'' ''tcp'' 5000]"
  by (simp add: site_a_connected_def startVPN_def startVPN_spawn_def isConnected_def
      constructor_def files_present_def logger_def waitForConnection_def
      checkConnection.simps up_at_second_poll_def set_status_def instant_def quiet_def
      checkInterval_def Let_def three_crashes_def crash_def exits_def on_exit_def
      attemptReconnect_def reconnect_timer_begins_def startVPN_begin_def getStatus_def
      reconnect_timer_fires_def crash_during_probe_def)

text \<open>
  C2, amended. Take consecutive unintentional exits of a connection, starting with the
  counter reset, with no reconnect getting to connected in between and nothing but the
  policy starting or stopping the connection; in between, reconnect timers may come due
  and probe loops of the starts they make may time out. Then the
  policy has scheduled one start for each exit up to the N-th, N the configured maximum,
  and none for any later exit: once N exits have happened, nothing that follows
  schedules anything. The state is disconnected right after every exit, but it does not
  remain so: it is connecting once a reconnect timer has come due (with both
  configuration files present), and error once the probe loop of a start has timed out.
\<close>

theorem reconnect_ceiling:
  assumes "crash_loop (Exit c s # es)" and "reconnectAttempts st n = None"
    and "0 \<le> maxReconnectAttempts st"
  shows "int (reconnects_scheduled (run existsSync n p (Exit c s # es) st) n)
           = int (reconnects_scheduled st n)
             + min (int (exits (Exit c s # es))) (maxReconnectAttempts st)
         \<and> (maxReconnectAttempts st \<le> int (exits (Exit c s # es)) \<longrightarrow> crash_loop es' \<longrightarrow>
              scheduled (run existsSync n p es' (run existsSync n p (Exit c s # es) st))
                = scheduled (run existsSync n p (Exit c s # es) st))
         \<and> getStatus (run existsSync n p (Exit c s # es) st) n
           = (case last (Exit c s # es) of
                Exit c' s' \<Rightarrow> Disconnected
              | ReconnectDue a t \<Rightarrow>
                  if existsSync (configPath p) \<and> existsSync authPath then Connecting
                  else getStatus (run existsSync n p (butlast (Exit c s # es)) st) n
              | ProbeTimeout a \<Rightarrow> Error
              | ProbeSuccess \<Rightarrow> Connected)"
proof -
  let ?M = "maxReconnectAttempts st"
  let ?st1 = "on_exit n p c s st"
  let ?st' = "run existsSync n p (Exit c s # es) st"
  have u: "unintentional (Exit c s)" and cl: "crash_loop es"
    using assms(1) by (simp_all add: crash_loop_Cons)
  have a0: "attempts_of st n = 0"
    using assms(2) by (simp add: attempts_of_def)
  have nc: "\<not> isConnected ?st1 n"
    by (simp add: isConnected_def on_exit_effect(1))
  have r: "?st' = run existsSync n p es ?st1" by simp
  have m1: "maxReconnectAttempts ?st1 = ?M" by (simp add: on_exit_effect(2))
  have a1: "attempts_of ?st1 n = (if 0 < ?M then 1 else 0)"
    using u a0 by (simp add: on_exit_effect(3) del: unintentional.simps)
  have s1: "int (reconnects_scheduled ?st1 n) = int (reconnects_scheduled st n) + (if 0 < ?M then 1 else 0)"
    using u a0 by (simp add: on_exit_effect(4) del: unintentional.simps)
  note inv = run_crash_loop [OF cl nc, of existsSync p, folded r, unfolded m1 a1 s1]
  have e: "int (exits (Exit c s # es)) = 1 + int (exits es)"
    by (simp add: exits_Cons)
  have A: "int (reconnects_scheduled ?st' n)
             = int (reconnects_scheduled st n) + min (int (exits (Exit c s # es))) ?M"
    using inv assms(3) unfolding e by (auto split: if_splits)
  have B: "scheduled (run existsSync n p es' ?st') = scheduled ?st'"
    if "?M \<le> int (exits (Exit c s # es))" and "crash_loop es'"
  proof -
    have "maxReconnectAttempts ?st' \<le> attempts_of ?st' n"
      using inv that(1) assms(3) unfolding e by (auto split: if_splits)
    then show ?thesis
      using run_at_ceiling [OF that(2), of ?st' n existsSync p] inv by simp
  qed
  have C: "getStatus ?st' n
           = (case last (Exit c s # es) of
                Exit c' s' \<Rightarrow> Disconnected
              | ReconnectDue a t \<Rightarrow>
                  if existsSync (configPath p) \<and> existsSync authPath then Connecting
                  else getStatus (run existsSync n p (butlast (Exit c s # es)) st) n
              | ProbeTimeout a \<Rightarrow> Error
              | ProbeSuccess \<Rightarrow> Connected)"
  proof (cases es rule: rev_cases)
    case Nil
    then show ?thesis by (simp add: getStatus_def on_exit_effect(1))
  next
    case (snoc es0 e')
    have cl0: "crash_loop es0" using cl snoc by (simp add: crash_loop_append)
    have nc0: "\<not> isConnected (run existsSync n p es0 ?st1) n"
      using run_crash_loop [OF cl0 nc] by simp
    have "?st' = step existsSync n p e' (run existsSync n p es0 ?st1)"
      using snoc by (simp add: run_append)
    then show ?thesis
      using status_after_step [OF nc0, of existsSync p e'] snoc
      by (cases e') (simp_all add: butlast_append)
  qed
  show ?thesis using A B C by blast
qed


theorem reconnect_ceiling_witness:
  "crash_loop four_crashes \<and> crash_loop three_timeouts
   \<and> reconnectAttempts site_a_connected ''site-a'' = None
   \<and> maxReconnectAttempts site_a_connected = 3 \<and> exits four_crashes = 4
   \<and> reconnects_scheduled (run files_present ''site-a'' ''tcp'' four_crashes site_a_connected)
        ''site-a'' = 3
   \<and> scheduled (run files_present ''site-a'' ''tcp'' three_timeouts
        (run files_present ''site-a'' ''tcp'' four_crashes site_a_connected))
     = scheduled (run files_present ''site-a'' ''tcp'' four_crashes site_a_connected)
   \<and> getStatus (run files_present ''site-a'' ''tcp'' four_crashes site_a_connected) ''site-a''
     = Disconnected
   \<and> getStatus (run files_present ''site-a'' ''tcp'' (four_crashes @ three_timeouts)
        site_a_connected) ''site-a'' = Error"
proof -
  let ?es = "[ReconnectDue 1 5000, crash, ReconnectDue 2 10000, crash, ReconnectDue 3 15000, crash]"
  have f: "four_crashes = Exit (Some 1) None # ?es"
    by (simp add: four_crashes_def three_crashes_def crash_def)
  have ft: "four_crashes @ three_timeouts = Exit (Some 1) None # (?es @ three_timeouts)"
    by (simp add: f)
  have c: "crash_loop (Exit (Some 1) None # ?es)"
    by (simp add: crash_loop_def crash_def)
  have ct: "crash_loop (Exit (Some 1) None # (?es @ three_timeouts))"
    by (simp add: crash_loop_def crash_def three_timeouts_def)
  have t: "crash_loop three_timeouts"
    by (simp add: crash_loop_def three_timeouts_def)
  have m: "0 \<le> maxReconnectAttempts site_a_connected"
    by (simp add: site_a_connected_fields)
  have e: "exits (Exit (Some 1) None # ?es) = 4"
    by (simp add: exits_def crash_def)
  have z: "reconnects_scheduled site_a_connected ''site-a'' = 0"
    by (simp add: reconnects_scheduled_def site_a_connected_fields)
  have l: "last (Exit (Some 1) None # ?es) = Exit (Some 1) None"
    "last (Exit (Some 1) None # (?es @ three_timeouts)) = ProbeTimeout 3"
    by (simp_all add: crash_def three_timeouts_def)
  show ?thesis
    using reconnect_ceiling [OF c site_a_connected_fields(1) m,
        where existsSync = files_present and p = "''tcp''" and es' = three_timeouts]
      reconnect_ceiling [OF ct site_a_connected_fields(1) m,
        where existsSync = files_present and p = "''tcp''" and es' = "[]"]
      c t e z l
    unfolding f [symmetric] ft [symmetric]
    by (simp add: site_a_connected_fields f [symmetric])
qed

text \<open>
  C6, as stated, fails: with the default timeout of 30000 ms, polls that return at once
  and timers that fire on time, the state goes to error 31000 ms after the start, later
  than the timeout.
\<close>

theorem timeout_detected_late:
  "fst (snd (startVPN never_up files_present 0 ''site-a'' ''tcp'' constructor)) = 31000
   \<and> \<not> fst (snd (startVPN never_up files_present 0 ''site-a'' ''tcp'' constructor)) \<le> 0 + 30000"
  by (simp add: startVPN_def startVPN_spawn_def isConnected_def
      constructor_def files_present_def logger_def waitForConnection_def
      checkConnection.simps never_up_def set_status_def instant_def quiet_def
      checkInterval_def Let_def)

text \<open>
  C6, amended. When no poll ever sees the tunnel, a start that spawns a process fails with
  the error "VPN connection ... timeout" and leaves the state error; this happens at the
  first poll made more than the timeout (30000 ms) after the start, so later than the
  timeout and no later than the timeout plus one poll interval (1000 ms) plus the longest
  time a poll and its timer take. The loop always ends: the state is never left
  connecting.
\<close>

theorem start_times_out:
  assumes "\<not> isConnected st n" and "existsSync (configPath p)" and "existsSync authPath"
    and "\<forall>k. \<not> sees_tun env k"
    and "\<forall>k. int (exec_ms env k) + int (late_ms env k) \<le> L"
  shows "fst (startVPN env existsSync now n p st) = Inl (ConnectionTimeout n)
         \<and> now + 30000 < fst (snd (startVPN env existsSync now n p st))
         \<and> fst (snd (startVPN env existsSync now n p st)) \<le> now + 30000 + checkInterval + L
         \<and> getStatus (snd (snd (startVPN env existsSync now n p st))) n = Error"
proof -
  define st1 where "st1 = snd (startVPN_spawn existsSync now n p st)"
  define w where "w = waitForConnection env n 30000 now st1"
  have sp: "startVPN_spawn existsSync now n p st = (Inr Awaiting, st1)"
    using assms(1-3) by (simp add: st1_def startVPN_spawn_def Let_def)
  have nv: "\<forall>j\<ge>0. \<not> sees_tun env j" using assms(4) by simp
  have w1: "fst w = Inl (ConnectionTimeout n)" and w2: "30000 < fst (snd w) - now"
    using check_never [OF nv] by (simp_all add: w_def waitForConnection_def)
  have "0 \<le> L" using assms(5) [rule_format, of 0] by simp
  then have w3: "fst (snd w) \<le> now + 30000 + checkInterval + L"
    using check_deadline [OF assms(5), of n 30000 now 0 now]
    by (simp add: w_def waitForConnection_def checkInterval_def)
  obtain t st2 where w: "w = (Inl (ConnectionTimeout n), t, st2)"
    using w1 by (cases w) auto
  have "startVPN env existsSync now n p st =
          (Inl (ConnectionTimeout n), t,
           set_status n Error
             (logger Err (''Failed to start VPN connection '' @ n @ '': ''
                @ message (ConnectionTimeout n)) st2))"
    using sp w by (simp add: startVPN_def w_def [symmetric])
  then show ?thesis
    using w2 w3 w by (simp add: getStatus_def set_status_def)
qed

theorem start_times_out_witness:
  "\<not> isConnected constructor ''site-a''
   \<and> fst (startVPN never_up files_present 0 ''site-a'' ''tcp'' constructor)
       = Inl (ConnectionTimeout ''site-a'')
   \<and> 30000 < fst (snd (startVPN never_up files_present 0 ''site-a'' ''tcp'' constructor))
   \<and> fst (snd (startVPN never_up files_present 0 ''site-a'' ''tcp'' constructor)) \<le> 31000
   \<and> getStatus (snd (snd (startVPN never_up files_present 0 ''site-a'' ''tcp'' constructor)))
        ''site-a'' = Error"
proof -
  have c: "\<not> isConnected constructor ''site-a''"
    by (simp add: isConnected_def constructor_def)
  have f: "files_present (configPath ''tcp'')" "files_present authPath"
    by (simp_all add: files_present_def)
  have n: "\<forall>k. \<not> sees_tun never_up k"
    by (simp add: never_up_def)
  have l: "\<forall>k. int (exec_ms never_up k) + int (late_ms never_up k) \<le> 0"
    by (simp add: never_up_def instant_def)
  show ?thesis
    using c start_times_out [OF c f n l, of 0]
    by (simp add: checkInterval_def)
qed


text \<open>
  C9. For a connection name that was never started (absent from the table of live
  connections and from the table of states), stop raises nothing: it returns the manager
  unchanged but for one warning in the log, and a status query afterwards reports
  disconnected.
\<close>

theorem stop_never_started:
  assumes "connections st n = None" and "connectionStatus st n = None"
  shows "stopVPN n st = st\<lparr>logs := logs st @ [(Warn, ''No VPN connection found for '' @ n)]\<rparr>
         \<and> getStatus (stopVPN n st) n = Disconnected"
  using assms by (simp add: stopVPN_def logger_def getStatus_def)

theorem stop_never_started_witness:
  "connections constructor ''site-a'' = None \<and> connectionStatus constructor ''site-a'' = None
   \<and> getStatus (stopVPN ''site-a'' constructor) ''site-a'' = Disconnected
   \<and> logs (stopVPN ''site-a'' constructor) = [(Warn, ''No VPN connection found for site-a'')]
   \<and> spawned (stopVPN ''site-a'' constructor) = [] \<and> signals (stopVPN ''site-a'' constructor) = []"
  using stop_never_started [of constructor "''site-a''"]
  by (simp add: constructor_def getStatus_def)

end
